theory Spec2Isabelle
  imports Complex_Main "HOL-Library.Char_ord" "HOL-Library.List_Lexorder" "HOL-Library.Multiset"
begin

section \<open>Data model of app.py\<close>

text \<open>
  The two conversion functions of \<^verbatim>\<open>app.py\<close> call PyMuPDF (\<^verbatim>\<open>fitz\<close>) and Pillow
  (\<^verbatim>\<open>PIL.Image\<close>) and report through Streamlit (\<^verbatim>\<open>st.error\<close>, \<^verbatim>\<open>st.warning\<close>).
  The libraries are not part of the repository, so every library call is a field of the
  record \<open>lib\<close> and every theorem holds for any behaviour of the libraries. A call that
  may raise returns \<open>exn + 'a\<close>, with \<open>Inl\<close> carrying the text of the exception.
  What a call does besides returning (opening and closing the document, Streamlit
  output) is listed in order in an \<open>event list\<close> returned next to the value; Python's
  \<^verbatim>\<open>None\<close> is \<open>None\<close>.
\<close>

type_synonym bytes = "nat list"
type_synonym exn = string

text \<open>\<^verbatim>\<open>fitz.Matrix(a, b)\<close>; the quotient \<^verbatim>\<open>dpi / 72\<close> is kept exact.\<close>
type_synonym matrix = "rat \<times> rat"

text \<open>\<^verbatim>\<open>fitz.Pixmap\<close>: the attributes line 41 reads.\<close>
record pixmap =
  width :: nat
  height :: nat
  samples :: bytes

text \<open>\<^verbatim>\<open>PIL.Image.Image\<close>: its mode string and its raster.\<close>
record image =
  mode :: string
  raster :: bytes

text \<open>Streamlit's \<^verbatim>\<open>UploadedFile\<close>: its name and its content.\<close>
record uploaded_file =
  name :: string
  content :: bytes

text \<open>The \<^verbatim>\<open>format\<close> argument of \<^verbatim>\<open>img.save\<close> for page images.\<close>
datatype save_format = PNG | JPEG nat

record ('doc, 'page) lib =
  fitz_open :: "bytes \<Rightarrow> exn + 'doc"
  doc_len :: "'doc \<Rightarrow> nat"
  load_page :: "'doc \<Rightarrow> nat \<Rightarrow> exn + 'page"
  get_pixmap :: "'page \<Rightarrow> matrix \<Rightarrow> exn + pixmap"
  Image_frombytes :: "string \<Rightarrow> nat \<times> nat \<Rightarrow> bytes \<Rightarrow> exn + image"
  Image_open :: "uploaded_file \<Rightarrow> exn + image"
  convert :: "image \<Rightarrow> string \<Rightarrow> exn + image"
  save :: "image \<Rightarrow> save_format \<Rightarrow> exn + bytes"
  save_pdf :: "image \<Rightarrow> image list \<Rightarrow> exn + bytes"

text \<open>
  The texts handed to Streamlit, one constructor per call site:
  line 55 (format not supported, with the argument as given), lines 63, 80, 99 (file
  name and exception), 104, 120 of the two functions, and lines 236 and 239 of the
  second tab.
\<close>
datatype message =
    UnsupportedFormat string
  | PdfError exn
  | NoImagesUploaded
  | UnreadableImage string exn
  | NoReadableImage
  | MergeError exn
  | MergeFailed
  | UploadFirst

datatype event =
    Opened
  | Closed
  | St_error message
  | St_warning message
  | St_info nat
  | St_json "string list"
  | St_success
  | St_download_button string bytes

section \<open>Strings\<close>

text \<open>
  \<^verbatim>\<open>str.lower()\<close> on the ASCII range: \<^verbatim>\<open>A\<close> to \<^verbatim>\<open>Z\<close> move to \<^verbatim>\<open>a\<close> to \<^verbatim>\<open>z\<close>, every other
  character stays. A \<open>char\<close> is a byte, so text beyond ASCII is its UTF-8 bytes, which
  this function leaves as they are.
\<close>
definition lower_char :: "char \<Rightarrow> char" where
  "lower_char c =
     (if 65 \<le> (of_char c :: nat) \<and> (of_char c :: nat) \<le> 90
      then char_of ((of_char c :: nat) + 32) else c)"

definition lower :: "string \<Rightarrow> string" where
  "lower s = map lower_char s"

text \<open>The decimal text of a natural number, as an f-string prints it.\<close>
definition digit_char :: "nat \<Rightarrow> char" where
  "digit_char d = char_of (48 + d)"

fun str :: "nat \<Rightarrow> string" where
  "str n = (if n < 10 then [digit_char n] else str (n div 10) @ [digit_char (n mod 10)])"

declare str.simps [simp del]

section \<open>pdf_to_images\<close>

text \<open>Line 33: the zoom matrix.\<close>
definition zoom_matrix :: "int \<Rightarrow> matrix" where
  "zoom_matrix dpi = (of_int dpi / 72, of_int dpi / 72)"

text \<open>
  Lines 43 to 56, the encoding of one page image: \<open>Inl\<close> is an exception of a library
  call, \<open>Inr None\<close> is the last branch (the caller reports the format and returns
  \<^verbatim>\<open>None\<close>), \<open>Inr (Some (filename, img_bytes))\<close> is the pair to append.
\<close>
definition encode_page ::
  "('doc, 'page) lib \<Rightarrow> string \<Rightarrow> nat \<Rightarrow> image \<Rightarrow> exn + (string \<times> bytes) option" where
  "encode_page L output_format page_num img =
     (if lower output_format = ''png'' then
        (case save L img PNG of
           Inl e \<Rightarrow> Inl e
         | Inr img_bytes \<Rightarrow> Inr (Some (''page_'' @ str (page_num + 1) @ ''.png'', img_bytes)))
      else if lower output_format = ''jpg'' then
        (case (if mode img = ''RGBA'' then convert L img ''RGB'' else Inr img) of
           Inl e \<Rightarrow> Inl e
         | Inr img' \<Rightarrow>
             (case save L img' (JPEG 95) of
                Inl e \<Rightarrow> Inl e
              | Inr img_bytes \<Rightarrow>
                  Inr (Some (''page_'' @ str (page_num + 1) @ ''.jpg'', img_bytes))))
      else Inr None)"

text \<open>Lines 36 to 56, the body of the loop for one page number.\<close>
definition page_body ::
  "('doc, 'page) lib \<Rightarrow> 'doc \<Rightarrow> matrix \<Rightarrow> string \<Rightarrow> nat \<Rightarrow> exn + (string \<times> bytes) option" where
  "page_body L pdf_doc zm output_format page_num =
     (case load_page L pdf_doc page_num of
        Inl e \<Rightarrow> Inl e
      | Inr page \<Rightarrow>
          (case get_pixmap L page zm of
             Inl e \<Rightarrow> Inl e
           | Inr pix \<Rightarrow>
               (case Image_frombytes L ''RGB'' (width pix, height pix) (samples pix) of
                  Inl e \<Rightarrow> Inl e
                | Inr img \<Rightarrow> encode_page L output_format page_num img)))"

text \<open>
  Lines 35 to 58, the loop over \<^verbatim>\<open>range(len(pdf_doc))\<close> with the list \<^verbatim>\<open>images\<close> built so
  far. It stops at the first page whose body raises or returns.
\<close>
fun for_pages ::
  "('doc, 'page) lib \<Rightarrow> 'doc \<Rightarrow> matrix \<Rightarrow> string \<Rightarrow> nat list \<Rightarrow> (string \<times> bytes) list
     \<Rightarrow> exn + (string \<times> bytes) list option" where
  "for_pages L pdf_doc zm output_format [] images = Inr (Some images)"
| "for_pages L pdf_doc zm output_format (page_num # rest) images =
     (case page_body L pdf_doc zm output_format page_num of
        Inl e \<Rightarrow> Inl e
      | Inr None \<Rightarrow> Inr None
      | Inr (Some p) \<Rightarrow> for_pages L pdf_doc zm output_format rest (images @ [p]))"

text \<open>
  Lines 30 to 64. \<^verbatim>\<open>pdf_doc.close()\<close> is line 60, on the path that returns the list; the
  handler of line 62 and the return of line 56 do not call it.
\<close>
definition pdf_to_images ::
  "('doc, 'page) lib \<Rightarrow> bytes \<Rightarrow> string \<Rightarrow> int \<Rightarrow> (string \<times> bytes) list option \<times> event list" where
  "pdf_to_images L pdf_bytes output_format dpi =
     (case fitz_open L pdf_bytes of
        Inl e \<Rightarrow> (None, [St_error (PdfError e)])
      | Inr pdf_doc \<Rightarrow>
          (case for_pages L pdf_doc (zoom_matrix dpi) output_format
                  [0..<doc_len L pdf_doc] [] of
             Inl e \<Rightarrow> (None, [Opened, St_error (PdfError e)])
           | Inr None \<Rightarrow> (None, [Opened, St_error (UnsupportedFormat output_format)])
           | Inr (Some images) \<Rightarrow> (Some images, [Opened, Closed])))"

section \<open>images_to_pdf\<close>

text \<open>Lines 88 to 95, the body of the inner \<^verbatim>\<open>try\<close>: open, then convert three modes.\<close>
definition read_image :: "('doc, 'page) lib \<Rightarrow> uploaded_file \<Rightarrow> exn + image" where
  "read_image L uploaded_file =
     (case Image_open L uploaded_file of
        Inl e \<Rightarrow> Inl e
      | Inr img \<Rightarrow>
          (if mode img = ''RGBA'' then convert L img ''RGB''
           else if mode img = ''P'' then convert L img ''RGB''
           else if mode img = ''L'' then convert L img ''RGB''
           else Inr img))"

text \<open>
  Lines 86 to 101, the loop over the uploaded files with \<^verbatim>\<open>pil_images\<close> and the events so
  far: a file whose body raises is reported with its name and left out.
\<close>
fun read_all ::
  "('doc, 'page) lib \<Rightarrow> uploaded_file list \<Rightarrow> image list \<Rightarrow> event list
     \<Rightarrow> image list \<times> event list" where
  "read_all L [] pil_images tr = (pil_images, tr)"
| "read_all L (uploaded_file # rest) pil_images tr =
     (case read_image L uploaded_file of
        Inl e \<Rightarrow>
          read_all L rest pil_images (tr @ [St_error (UnreadableImage (name uploaded_file) e)])
      | Inr img \<Rightarrow> read_all L rest (pil_images @ [img]) tr)"

text \<open>
  Lines 79 to 121. The save of line 110 takes the first image and the rest
  (\<^verbatim>\<open>append_images=pil_images[1:]\<close>); \<^verbatim>\<open>output_filename\<close> is not used by the body.
\<close>
definition images_to_pdf ::
  "('doc, 'page) lib \<Rightarrow> uploaded_file list \<Rightarrow> string \<Rightarrow> bytes option \<times> event list" where
  "images_to_pdf L image_files output_filename =
     (if image_files = [] then (None, [St_warning NoImagesUploaded])
      else
        (case read_all L image_files [] [] of
           (pil_images, tr) \<Rightarrow>
             (case pil_images of
                [] \<Rightarrow> (None, tr @ [St_error NoReadableImage])
              | first # others \<Rightarrow>
                  (case save_pdf L first others of
                     Inl e \<Rightarrow> (None, tr @ [St_error (MergeError e)])
                   | Inr pdf_bytes \<Rightarrow> (Some pdf_bytes, tr)))))"

section \<open>The second tab\<close>

text \<open>
  Lines 212 to 239, run when the page is drawn: with the button pressed and a non-empty
  upload list, the list is sorted by file name (line 215, a stable sort on the strings)
  and then given to \<open>images_to_pdf\<close>. The value is the bytes offered for download.
\<close>
definition tab2 ::
  "('doc, 'page) lib \<Rightarrow> bool \<Rightarrow> uploaded_file list \<Rightarrow> string \<Rightarrow> bytes option \<times> event list" where
  "tab2 L convert_images_button uploaded_images output_pdf_name =
     (if convert_images_button \<and> uploaded_images \<noteq> [] then
        (let sorted_images = sort_key name uploaded_images;
             tr0 = [St_info (length sorted_images), St_json (map name sorted_images)]
         in case images_to_pdf L sorted_images output_pdf_name of
              (Some pdf_bytes, tr) \<Rightarrow>
                (if pdf_bytes \<noteq> [] then
                   (Some pdf_bytes,
                    tr0 @ tr @ [St_success, St_download_button output_pdf_name pdf_bytes])
                 else (None, tr0 @ tr @ [St_error MergeFailed]))
            | (None, tr) \<Rightarrow> (None, tr0 @ tr @ [St_error MergeFailed]))
      else if convert_images_button \<and> uploaded_images = [] then
        (None, [St_warning UploadFirst])
      else (None, []))"

section \<open>Vocabulary of the statements\<close>

text \<open>An event that is a call of \<^verbatim>\<open>st.error\<close>.\<close>
fun is_st_error :: "event \<Rightarrow> bool" where
  "is_st_error (St_error m) = True"
| "is_st_error e = False"

text \<open>
  A pair returned by \<open>pdf_to_images\<close>, given to \<open>images_to_pdf\<close> as an uploaded file of
  that name and content.
\<close>
definition as_upload :: "string \<times> bytes \<Rightarrow> uploaded_file" where
  "as_upload p = \<lparr>name = fst p, content = snd p\<rparr>"

section \<open>A sample library\<close>

text \<open>
  One behaviour of the libraries, small enough to run, for the closed instances below.
  A PDF is the byte 37 followed by one byte per page; a page whose byte is 0 does not
  render. An image file is a mode code followed by its raster; code 0 and codes above 6
  do not open. The PDF writer refuses mode \<^verbatim>\<open>I;16\<close>, as Pillow's does, and otherwise
  writes one number per page, the sum of the page's raster.
\<close>
definition mode_of_code :: "nat \<Rightarrow> string" where
  "mode_of_code k =
     (if k = 1 then ''RGB'' else if k = 2 then ''RGBA'' else if k = 3 then ''P''
      else if k = 4 then ''L'' else if k = 5 then ''LA'' else ''I;16'')"

definition code_of_mode :: "string \<Rightarrow> nat" where
  "code_of_mode m =
     (if m = ''RGB'' then 1 else if m = ''RGBA'' then 2 else if m = ''P'' then 3
      else if m = ''L'' then 4 else if m = ''LA'' then 5 else 6)"

definition demo_lib :: "(bytes list, bytes) lib" where
  "demo_lib =
     \<lparr> fitz_open = (\<lambda>b. case b of [] \<Rightarrow> Inl ''no data''
                         | h # ps \<Rightarrow> if h = 37 then Inr (map (\<lambda>x. [x]) ps)
                                    else Inl ''not a PDF''),
       doc_len = length,
       load_page = (\<lambda>d n. if n < length d then Inr (d ! n) else Inl ''page not in document''),
       get_pixmap = (\<lambda>p zm. if p = [0] then Inl ''cannot render'' 
                             else Inr \<lparr>width = 1, height = 1, samples = p\<rparr>),
       Image_frombytes = (\<lambda>m sz s. Inr \<lparr>mode = m, raster = s\<rparr>),
       Image_open = (\<lambda>f. case content f of [] \<Rightarrow> Inl ''cannot identify image file''
                         | k # r \<Rightarrow> if k = 0 \<or> 6 < k then Inl ''cannot identify image file''
                                    else Inr \<lparr>mode = mode_of_code k, raster = r\<rparr>),
       convert = (\<lambda>img m. Inr (img\<lparr>mode := m\<rparr>)),
       save = (\<lambda>img f. Inr (code_of_mode (mode img) # raster img)),
       save_pdf = (\<lambda>first others.
                     if \<exists>i \<in> set (first # others). mode i = ''I;16''
                     then Inl ''cannot save mode I;16''
                     else Inr (map (\<lambda>i. sum_list (raster i)) (first # others))) \<rparr>"

section \<open>Facts about the page loop\<close>

lemma lower_png: "lower ''png'' = ''png''"
  by code_simp

lemma lower_jpg: "lower ''jpg'' = ''jpg''"
  by code_simp

lemma encode_page_lower:
  "lower f = lower g \<Longrightarrow> encode_page L f n img = encode_page L g n img"
  by (simp add: encode_page_def)

lemma page_body_lower:
  "lower f = lower g \<Longrightarrow> page_body L d zm f n = page_body L d zm g n"
  by (simp add: page_body_def encode_page_lower [of f g] split: sum.splits)

lemma for_pages_lower:
  "lower f = lower g \<Longrightarrow> for_pages L d zm f ns acc = for_pages L d zm g ns acc"
  by (induction ns arbitrary: acc)
    (simp_all add: page_body_lower [of f g] split: sum.splits option.splits)

lemma encode_page_supported:
  "lower f = ''png'' \<or> lower f = ''jpg'' \<Longrightarrow> encode_page L f n img \<noteq> Inr None"
  by (auto simp: encode_page_def split: sum.splits)

lemma page_body_supported:
  "lower f = ''png'' \<or> lower f = ''jpg'' \<Longrightarrow> page_body L d zm f n \<noteq> Inr None"
  by (auto simp: page_body_def encode_page_supported split: sum.splits)

lemma for_pages_supported:
  "lower f = ''png'' \<or> lower f = ''jpg'' \<Longrightarrow> for_pages L d zm f ns acc \<noteq> Inr None"
  by (induction ns arbitrary: acc) (auto simp: page_body_supported split: sum.splits option.splits)

lemma for_pages_Some_iff:
  "for_pages L d zm f ns acc = Inr (Some images) \<longleftrightarrow>
     (\<exists>ps. images = acc @ ps \<and> map (page_body L d zm f) ns = map (\<lambda>p. Inr (Some p)) ps)"
proof (induction ns arbitrary: acc)
  case Nil
  then show ?case by auto
next
  case (Cons n ns)
  show ?case
  proof (cases "page_body L d zm f n")
    case (Inl e)
    then show ?thesis by auto
  next
    case (Inr r)
    show ?thesis
    proof (cases r)
      case None
      with Inr show ?thesis by auto
    next
      case (Some p)
      with Inr Cons [of "acc @ [p]"] show ?thesis
        by (auto simp: map_eq_Cons_conv Cons_eq_map_conv)
    qed
  qed
qed

lemma for_pages_Inl:
  "n \<in> set ns \<Longrightarrow> page_body L d zm f n = Inl e \<Longrightarrow>
     for_pages L d zm f ns acc = Inr None \<or> (\<exists>e'. for_pages L d zm f ns acc = Inl e')"
  by (induction ns arbitrary: acc) (auto split: sum.splits option.splits)


lemma pdf_to_images_Some:
  "fst (pdf_to_images L pdf_bytes f dpi) = Some images \<Longrightarrow>
     \<exists>pdf_doc. fitz_open L pdf_bytes = Inr pdf_doc \<and> length images = doc_len L pdf_doc \<and>
       snd (pdf_to_images L pdf_bytes f dpi) = [Opened, Closed] \<and>
       (\<forall>n < doc_len L pdf_doc. page_body L pdf_doc (zoom_matrix dpi) f n = Inr (Some (images ! n)))"
proof -
  assume a: "fst (pdf_to_images L pdf_bytes f dpi) = Some images"
  then obtain pdf_doc where o: "fitz_open L pdf_bytes = Inr pdf_doc"
    by (cases "fitz_open L pdf_bytes") (auto simp: pdf_to_images_def)
  from a o have run: "for_pages L pdf_doc (zoom_matrix dpi) f [0..<doc_len L pdf_doc] [] =
      Inr (Some images)"
    by (auto simp: pdf_to_images_def split: sum.splits option.splits)
  then have m: "map (page_body L pdf_doc (zoom_matrix dpi) f) [0..<doc_len L pdf_doc] =
      map (\<lambda>p. Inr (Some p)) images"
    by (simp add: for_pages_Some_iff)
  then have len: "length images = doc_len L pdf_doc"
    by (metis length_map length_upt minus_nat.diff_0)
  have "page_body L pdf_doc (zoom_matrix dpi) f n = Inr (Some (images ! n))"
    if "n < doc_len L pdf_doc" for n
  proof -
    have "map (page_body L pdf_doc (zoom_matrix dpi) f) [0..<doc_len L pdf_doc] ! n =
        map (\<lambda>p. Inr (Some p)) images ! n"
      using m by simp
    then show ?thesis using that len by simp
  qed
  moreover have "snd (pdf_to_images L pdf_bytes f dpi) = [Opened, Closed]"
    using o run by (simp add: pdf_to_images_def)
  ultimately show ?thesis using o len by blast
qed

section \<open>Facts about the image loop\<close>

lemma read_all_eq:
  "read_all L fs acc tr =
     (acc @ map projr (filter (\<lambda>r. \<not> isl r) (map (read_image L) fs)),
      tr @ map (\<lambda>f. St_error (UnreadableImage (name f) (projl (read_image L f))))
             (filter (\<lambda>f. isl (read_image L f)) fs))"
  by (induction fs arbitrary: acc tr) (auto split: sum.splits)

lemma images_to_pdf_eq:
  "images_to_pdf L fs output_filename =
     (if fs = [] then (None, [St_warning NoImagesUploaded])
      else
        (case map projr (filter (\<lambda>r. \<not> isl r) (map (read_image L) fs)) of
           [] \<Rightarrow>
             (None,
              map (\<lambda>f. St_error (UnreadableImage (name f) (projl (read_image L f))))
                (filter (\<lambda>f. isl (read_image L f)) fs) @ [St_error NoReadableImage])
         | first # others \<Rightarrow>
             (case save_pdf L first others of
                Inl e \<Rightarrow>
                  (None,
                   map (\<lambda>f. St_error (UnreadableImage (name f) (projl (read_image L f))))
                     (filter (\<lambda>f. isl (read_image L f)) fs) @ [St_error (MergeError e)])
              | Inr pdf_bytes \<Rightarrow>
                  (Some pdf_bytes,
                   map (\<lambda>f. St_error (UnreadableImage (name f) (projl (read_image L f))))
                     (filter (\<lambda>f. isl (read_image L f)) fs)))))"
  by (simp add: images_to_pdf_def read_all_eq)

section \<open>Properties of pdf_to_images\<close>



text \<open>
  Claim C4. With the document open: if the body of the loop raises on some page, the
  call returns \<^verbatim>\<open>None\<close> and exactly one event of the call is an \<^verbatim>\<open>st.error\<close>; and
  whenever the call returns a list, the list has as many pairs as the document has
  pages, so no list covers only a proper prefix of the pages.
\<close>
theorem pdf_to_images_all_or_nothing:
  assumes "fitz_open L pdf_bytes = Inr pdf_doc"
  shows "((\<exists>n < doc_len L pdf_doc. \<exists>e.
             page_body L pdf_doc (zoom_matrix dpi) output_format n = Inl e) \<longrightarrow>
            fst (pdf_to_images L pdf_bytes output_format dpi) = None \<and>
            length (filter is_st_error (snd (pdf_to_images L pdf_bytes output_format dpi))) = 1) \<and>
         (\<forall>images. fst (pdf_to_images L pdf_bytes output_format dpi) = Some images \<longrightarrow>
            length images = doc_len L pdf_doc)"
proof (intro conjI impI allI)
  fix images
  assume "fst (pdf_to_images L pdf_bytes output_format dpi) = Some images"
  from pdf_to_images_Some [OF this] assms show "length images = doc_len L pdf_doc"
    by auto
next
  assume "\<exists>n < doc_len L pdf_doc. \<exists>e.
      page_body L pdf_doc (zoom_matrix dpi) output_format n = Inl e"
  then obtain n e where n: "n \<in> set [0..<doc_len L pdf_doc]"
    and e: "page_body L pdf_doc (zoom_matrix dpi) output_format n = Inl e"
    by auto
  from for_pages_Inl [OF n e, of "[]"] assms
  show "fst (pdf_to_images L pdf_bytes output_format dpi) = None"
    by (auto simp: pdf_to_images_def)
  from for_pages_Inl [OF n e, of "[]"] assms
  show "length (filter is_st_error (snd (pdf_to_images L pdf_bytes output_format dpi))) = 1"
    by (auto simp: pdf_to_images_def)
qed

theorem pdf_to_images_all_or_nothing_witness:
  "fitz_open demo_lib [37, 1, 0, 2] = Inr [[1], [0], [2]] \<and>
   (1::nat) < doc_len demo_lib [[1], [0], [2]] \<and>
   page_body demo_lib [[1], [0], [2]] (zoom_matrix 200) ''png'' 1 = Inl ''cannot render'' \<and>
   pdf_to_images demo_lib [37, 1, 0, 2] ''png'' 200 =
     (None, [Opened, St_error (PdfError ''cannot render'')]) \<and>
   fst (pdf_to_images demo_lib [37, 1, 0, 2] ''png'' 200) = None \<and>
   length (filter is_st_error (snd (pdf_to_images demo_lib [37, 1, 0, 2] ''png'' 200))) = 1"
proof -
  have o: "fitz_open demo_lib [37, 1, 0, 2] = Inr [[1], [0], [2]]" by code_simp
  have n: "(1::nat) < doc_len demo_lib [[1], [0], [2]]" by code_simp
  have e: "page_body demo_lib [[1], [0], [2]] (zoom_matrix 200) ''png'' 1 = Inl ''cannot render''"
    by code_simp
  have v: "pdf_to_images demo_lib [37, 1, 0, 2] ''png'' 200 =
     (None, [Opened, St_error (PdfError ''cannot render'')])" by code_simp
  show ?thesis
    using o n e v pdf_to_images_all_or_nothing [OF o, of 200 "''png''"] by blast
qed

text \<open>
  Claim C10. A format argument whose lowercase form is \<^verbatim>\<open>png\<close> or \<^verbatim>\<open>jpg\<close> gives, on
  every input, the same list and the same events as its lowercase form.
\<close>
theorem pdf_to_images_case_insensitive:
  assumes "lower output_format = ''png'' \<or> lower output_format = ''jpg''"
  shows "pdf_to_images L pdf_bytes output_format dpi =
         pdf_to_images L pdf_bytes (lower output_format) dpi"
proof -
  have l: "lower output_format = lower (lower output_format)"
    using assms lower_png lower_jpg by auto
  have s: "lower (lower output_format) = ''png'' \<or> lower (lower output_format) = ''jpg''"
    using assms l by simp
  show ?thesis
    using for_pages_supported [OF assms, of L] for_pages_supported [OF s, of L]
      for_pages_lower [OF l, of L]
    by (simp add: pdf_to_images_def split: sum.splits option.splits)
qed

theorem pdf_to_images_case_insensitive_witness:
  "(lower ''PNG'' = ''png'' \<or> lower ''PNG'' = ''jpg'') \<and>
   pdf_to_images demo_lib [37, 1, 2] ''PNG'' 200 = pdf_to_images demo_lib [37, 1, 2] ''png'' 200 \<and>
   pdf_to_images demo_lib [37, 1, 2] ''PNG'' 200 =
     (Some [(''page_1.png'', [1, 1]), (''page_2.png'', [1, 2])], [Opened, Closed])"
proof -
  have h: "lower ''PNG'' = ''png'' \<or> lower ''PNG'' = ''jpg''" by code_simp
  have l: "lower ''PNG'' = ''png''" by code_simp
  have v: "pdf_to_images demo_lib [37, 1, 2] ''PNG'' 200 =
     (Some [(''page_1.png'', [1, 1]), (''page_2.png'', [1, 2])], [Opened, Closed])"
    by code_simp
  show ?thesis
    using h v pdf_to_images_case_insensitive [OF h, of demo_lib "[37, 1, 2]" 200]
    by (simp add: l)
qed

text \<open>
  Claim C3, at two inputs that open: a one-page document with the format \<^verbatim>\<open>gif\<close>, and
  a document whose second page does not render. Both calls return \<^verbatim>\<open>None\<close> after the
  document was opened, and neither closes it: the close of line 60 is reached only on
  the path that returns the list.
\<close>
theorem pdf_to_images_error_paths_skip_close:
  "fitz_open demo_lib [37, 1] = Inr [[1]] \<and>
   pdf_to_images demo_lib [37, 1] ''gif'' 200 =
     (None, [Opened, St_error (UnsupportedFormat ''gif'')]) \<and>
   fitz_open demo_lib [37, 1, 0] = Inr [[1], [0]] \<and>
   pdf_to_images demo_lib [37, 1, 0] ''png'' 200 =
     (None, [Opened, St_error (PdfError ''cannot render'')]) \<and>
   Closed \<notin> set (snd (pdf_to_images demo_lib [37, 1] ''gif'' 200)) \<and>
   Closed \<notin> set (snd (pdf_to_images demo_lib [37, 1, 0] ''png'' 200))"
  by code_simp

text \<open>
  Claim C7 as stated, at the argument \<^verbatim>\<open>PNG\<close>: it is neither of the two literals, and
  the call returns the pages.
\<close>
theorem pdf_to_images_accepts_uppercase:
  "''PNG'' \<noteq> ''png'' \<and> ''PNG'' \<noteq> ''jpg'' \<and>
   pdf_to_images demo_lib [37, 1, 2] ''PNG'' 200 =
     (Some [(''page_1.png'', [1, 1]), (''page_2.png'', [1, 2])], [Opened, Closed])"
  by code_simp

text \<open>
  Claim C7, amended. When the document opens, has at least one page, its first page
  loads, renders and becomes an image, and the lowercase form of the format argument is
  neither \<^verbatim>\<open>png\<close> nor \<^verbatim>\<open>jpg\<close>, the call returns \<^verbatim>\<open>None\<close> and its one \<^verbatim>\<open>st.error\<close> is the
  message of line 55 with the argument as given.
\<close>
theorem pdf_to_images_unsupported_format:
  assumes "fitz_open L pdf_bytes = Inr pdf_doc"
    and "0 < doc_len L pdf_doc"
    and "load_page L pdf_doc 0 = Inr page"
    and "get_pixmap L page (zoom_matrix dpi) = Inr pix"
    and "Image_frombytes L ''RGB'' (width pix, height pix) (samples pix) = Inr img"
    and "lower output_format \<noteq> ''png''"
    and "lower output_format \<noteq> ''jpg''"
  shows "pdf_to_images L pdf_bytes output_format dpi =
           (None, [Opened, St_error (UnsupportedFormat output_format)])"
proof -
  have b: "page_body L pdf_doc (zoom_matrix dpi) output_format 0 = Inr None"
    using assms(3-7) by (simp add: page_body_def encode_page_def)
  have u: "[0..<doc_len L pdf_doc] = 0 # [1..<doc_len L pdf_doc]"
    using assms(2) by (simp add: upt_conv_Cons)
  show ?thesis
    using assms(1) b by (simp add: pdf_to_images_def u)
qed

theorem pdf_to_images_unsupported_format_witness:
  "fitz_open demo_lib [37, 1, 2] = Inr [[1], [2]] \<and>
   0 < doc_len demo_lib [[1], [2]] \<and>
   load_page demo_lib [[1], [2]] 0 = Inr [1] \<and>
   get_pixmap demo_lib [1] (zoom_matrix 200) = Inr \<lparr>width = 1, height = 1, samples = [1]\<rparr> \<and>
   Image_frombytes demo_lib ''RGB'' (1, 1) [1] = Inr \<lparr>mode = ''RGB'', raster = [1]\<rparr> \<and>
   lower ''gif'' \<noteq> ''png'' \<and> lower ''gif'' \<noteq> ''jpg'' \<and>
   pdf_to_images demo_lib [37, 1, 2] ''gif'' 200 =
     (None, [Opened, St_error (UnsupportedFormat ''gif'')])"
proof -
  have o: "fitz_open demo_lib [37, 1, 2] = Inr [[1], [2]]" by code_simp
  have n: "0 < doc_len demo_lib [[1], [2]]" by code_simp
  have p: "load_page demo_lib [[1], [2]] 0 = Inr [1]" by code_simp
  have x: "get_pixmap demo_lib [1] (zoom_matrix 200) =
      Inr \<lparr>width = 1, height = 1, samples = [1]\<rparr>" by code_simp
  have i: "Image_frombytes demo_lib ''RGB''
      (width \<lparr>width = 1, height = 1, samples = [1]\<rparr>, height \<lparr>width = 1, height = 1, samples = [1]\<rparr>)
      (samples \<lparr>width = 1, height = 1, samples = [1]\<rparr>) = Inr \<lparr>mode = ''RGB'', raster = [1]\<rparr>"
    by code_simp
  have g1: "lower ''gif'' \<noteq> ''png''" by code_simp
  have g2: "lower ''gif'' \<noteq> ''jpg''" by code_simp
  show ?thesis
    using o n p x i g1 g2 pdf_to_images_unsupported_format [OF o n p x i g1 g2] by simp
qed

section \<open>Properties of images_to_pdf\<close>

text \<open>
  Claim C2 as stated, on the files \<^verbatim>\<open>b.png\<close> then \<^verbatim>\<open>a.png\<close>: \<open>images_to_pdf\<close> writes the
  page of \<^verbatim>\<open>b.png\<close> first; the pages come in name order only when the list is sorted
  before the call.
\<close>
theorem images_to_pdf_keeps_caller_order:
  "images_to_pdf demo_lib
     [\<lparr>name = ''b.png'', content = [1, 2]\<rparr>, \<lparr>name = ''a.png'', content = [1, 1]\<rparr>] ''output.pdf'' =
     (Some [2, 1], []) \<and>
   sort_key name [\<lparr>name = ''b.png'', content = [1, 2]\<rparr>, \<lparr>name = ''a.png'', content = [1, 1]\<rparr>] =
     [\<lparr>name = ''a.png'', content = [1, 1]\<rparr>, \<lparr>name = ''b.png'', content = [1, 2]\<rparr>] \<and>
   images_to_pdf demo_lib
     [\<lparr>name = ''a.png'', content = [1, 1]\<rparr>, \<lparr>name = ''b.png'', content = [1, 2]\<rparr>] ''output.pdf'' =
     (Some [1, 2], [])"
  by code_simp

text \<open>
  Claim C2, amended. \<open>images_to_pdf\<close> keeps the order of its argument: the PDF it
  returns is the writer's output for the readable images in the order given. The sort
  by file name is the second tab's (line 215): what the tab returns is what
  \<open>images_to_pdf\<close> returns on the uploads sorted by name, a list in ascending name order
  with the same files.
\<close>
theorem order_is_callers_and_tab2_sorts:
  "(fst (images_to_pdf L image_files output_filename) = Some pdf_bytes \<longrightarrow>
      (\<exists>first others.
         map projr (filter (\<lambda>r. \<not> isl r) (map (read_image L) image_files)) = first # others \<and>
         save_pdf L first others = Inr pdf_bytes)) \<and>
   (fst (tab2 L True image_files output_filename) = Some pdf_bytes \<longrightarrow>
      fst (images_to_pdf L (sort_key name image_files) output_filename) = Some pdf_bytes \<and>
      sorted (map name (sort_key name image_files)) \<and>
      mset (sort_key name image_files) = mset image_files)"
proof (intro conjI impI)
  assume "fst (images_to_pdf L image_files output_filename) = Some pdf_bytes"
  then show "\<exists>first others.
      map projr (filter (\<lambda>r. \<not> isl r) (map (read_image L) image_files)) = first # others \<and>
      save_pdf L first others = Inr pdf_bytes"
    by (auto simp: images_to_pdf_eq split: if_splits list.splits sum.splits)
next
  assume "fst (tab2 L True image_files output_filename) = Some pdf_bytes"
  then show "fst (images_to_pdf L (sort_key name image_files) output_filename) = Some pdf_bytes"
    by (auto simp: tab2_def Let_def split: if_splits prod.splits option.splits)
next
  show "sorted (map name (sort_key name image_files))"
    by simp
next
  show "mset (sort_key name image_files) = mset image_files"
    by simp
qed

theorem order_is_callers_and_tab2_sorts_witness:
  "fst (images_to_pdf demo_lib
     [\<lparr>name = ''b.png'', content = [1, 2]\<rparr>, \<lparr>name = ''a.png'', content = [1, 1]\<rparr>] ''output.pdf'') =
     Some [2, 1] \<and>
   fst (tab2 demo_lib True
     [\<lparr>name = ''b.png'', content = [1, 2]\<rparr>, \<lparr>name = ''a.png'', content = [1, 1]\<rparr>] ''output.pdf'') =
     Some [1, 2] \<and>
   (\<exists>first others.
      map projr (filter (\<lambda>r. \<not> isl r) (map (read_image demo_lib)
        [\<lparr>name = ''b.png'', content = [1, 2]\<rparr>, \<lparr>name = ''a.png'', content = [1, 1]\<rparr>])) =
        first # others \<and>
      save_pdf demo_lib first others = Inr [2, 1]) \<and>
   sorted (map name (sort_key name
     [\<lparr>name = ''b.png'', content = [1, 2]\<rparr>, \<lparr>name = ''a.png'', content = [1, 1]\<rparr>]))"
proof -
  let ?fs = "[\<lparr>name = ''b.png'', content = [1, 2]\<rparr>, \<lparr>name = ''a.png'', content = [1, 1]\<rparr>]"
  have a: "fst (images_to_pdf demo_lib ?fs ''output.pdf'') = Some [2, 1]" by code_simp
  have b: "fst (tab2 demo_lib True ?fs ''output.pdf'') = Some [1, 2]" by code_simp
  have c: "\<exists>first others.
      map projr (filter (\<lambda>r. \<not> isl r) (map (read_image demo_lib) ?fs)) = first # others \<and>
      save_pdf demo_lib first others = Inr [2, 1]"
    using a order_is_callers_and_tab2_sorts [of demo_lib ?fs "''output.pdf''" "[2, 1]"]
    by blast
  have d: "sorted (map name (sort_key name ?fs))"
    using b order_is_callers_and_tab2_sorts [of demo_lib ?fs "''output.pdf''" "[1, 2]"]
    by blast
  show ?thesis using a b c d by blast
qed




text \<open>
  Claim C6, at a file that opens in mode \<^verbatim>\<open>LA\<close> (grey with alpha): the mode is none of
  the three that lines 90 to 95 convert, so the image reaches the writer in mode
  \<^verbatim>\<open>LA\<close>, alpha channel included.
\<close>
theorem images_to_pdf_keeps_gray_alpha:
  "read_image demo_lib \<lparr>name = ''gray_alpha.png'', content = [5, 7]\<rparr> =
     Inr \<lparr>mode = ''LA'', raster = [7]\<rparr> \<and>
   read_all demo_lib [\<lparr>name = ''gray_alpha.png'', content = [5, 7]\<rparr>] [] [] =
     ([\<lparr>mode = ''LA'', raster = [7]\<rparr>], []) \<and>
   images_to_pdf demo_lib [\<lparr>name = ''gray_alpha.png'', content = [5, 7]\<rparr>] ''output.pdf'' =
     (Some [7], [])"
  by code_simp

section \<open>Properties of both functions\<close>




text \<open>
  Claim C9 as stated, on a document with no page: \<open>pdf_to_images\<close> returns the empty
  list, and \<open>images_to_pdf\<close> on the empty list returns \<^verbatim>\<open>None\<close> with the warning of line
  80, so no PDF comes back.
\<close>
theorem round_trip_of_empty_document:
  "fitz_open demo_lib [37] = Inr [] \<and>
   doc_len demo_lib [] = 0 \<and>
   pdf_to_images demo_lib [37] ''png'' 200 = (Some [], [Opened, Closed]) \<and>
   images_to_pdf demo_lib (map as_upload []) ''output.pdf'' =
     (None, [St_warning NoImagesUploaded])"
  by code_simp

text \<open>
  Claim C9, amended. For a document that opens with at least one page and on which
  \<open>pdf_to_images\<close> with \<^verbatim>\<open>png\<close> returns a list: if every returned pair can be read back as
  an image and the writer, given those images, writes one page per image, then
  \<open>images_to_pdf\<close> on the returned pairs returns a PDF with as many pages as the
  document has.
\<close>
theorem round_trip_page_count:
  assumes "fitz_open L pdf_bytes = Inr pdf_doc"
    and "0 < doc_len L pdf_doc"
    and "fst (pdf_to_images L pdf_bytes ''png'' dpi) = Some images"
    and "\<forall>p \<in> set images. \<not> isl (read_image L (as_upload p))"
    and "\<forall>first others.
           first # others = map (\<lambda>p. projr (read_image L (as_upload p))) images \<longrightarrow>
           (\<exists>b. save_pdf L first others = Inr b \<and> page_count b = Suc (length others))"
  shows "\<exists>pdf_out.
           fst (images_to_pdf L (map as_upload images) output_filename) = Some pdf_out \<and>
           page_count pdf_out = doc_len L pdf_doc"
proof -
  from pdf_to_images_Some [OF assms(3)] assms(1)
  have len: "length images = doc_len L pdf_doc" by auto
  have keep: "filter (\<lambda>r. \<not> isl r) (map (read_image L) (map as_upload images)) =
      map (read_image L) (map as_upload images)"
    using assms(4) by (auto simp: filter_id_conv)
  have pil: "map projr (filter (\<lambda>r. \<not> isl r) (map (read_image L) (map as_upload images))) =
      map (\<lambda>p. projr (read_image L (as_upload p))) images"
    unfolding keep by (simp add: comp_def)
  from len assms(2) obtain first others where
    fo: "map (\<lambda>p. projr (read_image L (as_upload p))) images = first # others"
    by (cases images) auto
  then have lo: "Suc (length others) = doc_len L pdf_doc"
    using len by (metis length_Cons length_map)
  from assms(5) fo obtain b where
    w: "save_pdf L first others = Inr b" and c: "page_count b = Suc (length others)"
    by metis
  have ne: "map as_upload images \<noteq> []"
    using len assms(2) by auto
  have "fst (images_to_pdf L (map as_upload images) output_filename) = Some b"
    unfolding images_to_pdf_eq pil fo using ne w by simp
  then show ?thesis using c lo by simp
qed

theorem round_trip_page_count_witness:
  "fitz_open demo_lib [37, 1, 2] = Inr [[1], [2]] \<and>
   0 < doc_len demo_lib [[1], [2]] \<and>
   doc_len demo_lib [[1], [2]] = 2 \<and>
   fst (pdf_to_images demo_lib [37, 1, 2] ''png'' 200) =
     Some [(''page_1.png'', [1, 1]), (''page_2.png'', [1, 2])] \<and>
   fst (images_to_pdf demo_lib
     (map as_upload [(''page_1.png'', [1, 1]), (''page_2.png'', [1, 2])]) ''output.pdf'') =
     Some [1, 2] \<and>
   (\<exists>pdf_out.
      fst (images_to_pdf demo_lib
        (map as_upload [(''page_1.png'', [1, 1]), (''page_2.png'', [1, 2])]) ''output.pdf'') =
        Some pdf_out \<and>
      length pdf_out = doc_len demo_lib [[1], [2]])"
proof -
  let ?images = "[(''page_1.png'', [1, 1]), (''page_2.png'', [1, 2 :: nat])]"
  have o: "fitz_open demo_lib [37, 1, 2] = Inr [[1], [2]]" by code_simp
  have n: "0 < doc_len demo_lib [[1], [2]]" by code_simp
  have n2: "doc_len demo_lib [[1], [2]] = 2" by code_simp
  have r: "fst (pdf_to_images demo_lib [37, 1, 2] ''png'' 200) = Some ?images" by code_simp
  have d: "\<forall>p \<in> set ?images. \<not> isl (read_image demo_lib (as_upload p))" by code_simp
  have m: "map (\<lambda>p. projr (read_image demo_lib (as_upload p))) ?images =
      [\<lparr>mode = ''RGB'', raster = [1]\<rparr>, \<lparr>mode = ''RGB'', raster = [2]\<rparr>]" by code_simp
  have s: "save_pdf demo_lib \<lparr>mode = ''RGB'', raster = [1]\<rparr> [\<lparr>mode = ''RGB'', raster = [2]\<rparr>] =
      Inr [1, 2]" by code_simp
  have w: "\<forall>first others.
      first # others = map (\<lambda>p. projr (read_image demo_lib (as_upload p))) ?images \<longrightarrow>
      (\<exists>b. save_pdf demo_lib first others = Inr b \<and> length b = Suc (length others))"
    unfolding m using s by auto
  have v: "fst (images_to_pdf demo_lib (map as_upload ?images) ''output.pdf'') = Some [1, 2]"
    by code_simp
  show ?thesis
    using o n n2 r v round_trip_page_count [OF o n r d w, of "''output.pdf''"] by simp
qed

end
